theory Spec2Isabelle
  imports Main
begin

section \<open>Values, types and exceptions of deconf.py\<close>

text \<open>
  The Python values that flow through the engine. Only what the engine itself inspects
  matters: whether a value is an instance of the \<open>ensure_type\<close> class (line 171) and
  whether a handler's return value is truthy (line 182, \<open>retval or val\<close>).
\<close>

datatype pytype = TNoneType | TBool | TInt | TStr | TList

datatype pyval = PNone | PBool bool | PInt int | PStr string | PList "pyval list"

text \<open>\<open>isinstance(val, ensure_type)\<close>; in Python \<open>bool\<close> is a subclass of \<open>int\<close>.\<close>

fun isinstance :: "pyval \<Rightarrow> pytype \<Rightarrow> bool" where
  "isinstance PNone t = (t = TNoneType)"
| "isinstance (PBool b) t = (t = TBool \<or> t = TInt)"
| "isinstance (PInt i) t = (t = TInt)"
| "isinstance (PStr s) t = (t = TStr)"
| "isinstance (PList xs) t = (t = TList)"

text \<open>Python truth value testing: None, False, 0, the empty string and the empty list are false.\<close>

fun truthy :: "pyval \<Rightarrow> bool" where
  "truthy PNone = False"
| "truthy (PBool b) = b"
| "truthy (PInt i) = (i \<noteq> 0)"
| "truthy (PStr s) = (s \<noteq> [])"
| "truthy (PList xs) = (xs \<noteq> [])"

text \<open>The expression \<open>retval or val\<close> of line 182.\<close>

definition py_or :: "pyval \<Rightarrow> pyval \<Rightarrow> pyval" where
  "py_or retval val = (if truthy retval then retval else val)"

text \<open>
  The four exception classes of lines 3-6, with the data their messages are formatted
  from, and the built-in exceptions the engine or a handler can run into:
  \<open>TypeError\<close> for calling \<open>None\<close> (line 162 with \<open>method = None\<close>),
  \<open>IndexError\<close> for \<open>chain[0]\<close>, \<open>AttributeError\<close> for a handler that reads an
  attribute the object does not have yet.
\<close>

datatype error =
    RequiredParameterError string string
  | CyclicalDependencyError string
  | ParameterTypeError string pytype
  | ParameterValueError string
  | TypeError
  | IndexError
  | AttributeError string

section \<open>The object under construction and its parameter methods\<close>

text \<open>
  A method decorated with \<open>@parameter(param, depends_on, ensure_type, default)\<close>
  (lines 166-186). \<open>default_val = None\<close> is \<open>default=Undefined\<close>. The decorated
  function \<open>f(self, val)\<close> reads the attributes of the object built so far and either
  returns a value (\<open>PNone\<close> for a body that passes) or raises.
\<close>

record param_method =
  param :: string
  depends_on :: "string list"
  ensure_type :: "pytype option"
  default_val :: "pyval option"
  handler :: "(string \<rightharpoonup> pyval) \<Rightarrow> pyval \<Rightarrow> error + pyval"

text \<open>
  The instance: the attributes set by \<open>setattr\<close> (line 182), the dictionary
  \<open>_param_vals\<close> (line 128), and \<open>calls\<close>, the trace of the parameters whose
  handler \<open>f\<close> has been invoked (line 181), in order of invocation. Parameter names
  are taken to differ from the names the engine itself keeps on the instance
  (\<open>_param_vals\<close>, \<open>_param_methods\<close> and its methods), so that \<open>setattr\<close> never
  overwrites them; \<open>attrs\<close> and \<open>param_vals\<close> are kept apart accordingly.
\<close>

record obj =
  attrs :: "string \<rightharpoonup> pyval"
  param_vals :: "string \<rightharpoonup> pyval"
  calls :: "string list"

definition new_obj :: obj where
  "new_obj = \<lparr>attrs = Map.empty, param_vals = Map.empty, calls = []\<rparr>"

text \<open>
  Lines 169-180: the raw value of the parameter, from the keyword arguments (type-checked
  when \<open>ensure_type\<close> is set) or from the default.
\<close>

definition input_value ::
  "string \<Rightarrow> param_method \<Rightarrow> (string \<rightharpoonup> pyval) \<Rightarrow> error + pyval" where
  "input_value cls m kwargs =
     (case kwargs (param m) of
        Some val \<Rightarrow>
          (case ensure_type m of
             Some t \<Rightarrow>
               if \<not> isinstance val t then Inl (ParameterTypeError (param m) t) else Inr val
           | None \<Rightarrow> Inr val)
      | None \<Rightarrow>
          (case default_val m of
             Some d \<Rightarrow> Inr d
           | None \<Rightarrow> Inl (RequiredParameterError cls (param m))))"

text \<open>
  Lines 168-182, \<open>wrapper(self, kwargs)\<close>. An exception leaves the object as it was when
  raised. The wrapper has no return statement: it returns \<open>None\<close>.
\<close>

definition wrapper ::
  "string \<Rightarrow> param_method \<Rightarrow> (string \<rightharpoonup> pyval) \<Rightarrow> obj \<Rightarrow> (error + pyval) \<times> obj" where
  "wrapper cls m kwargs s =
     (case input_value cls m kwargs of
        Inl e \<Rightarrow> (Inl e, s)
      | Inr val \<Rightarrow>
          (let s1 = s\<lparr>calls := calls s @ [param m]\<rparr> in
           case handler m (attrs s) val of
             Inl e \<Rightarrow> (Inl e, s1)
           | Inr retval \<Rightarrow>
               (Inr PNone, s1\<lparr>attrs := (attrs s1)(param m \<mapsto> py_or retval val)\<rparr>)))"

text \<open>\<open>method(kwargs)\<close> of line 162; \<open>method\<close> is \<open>None\<close> for an undeclared dependency.\<close>

definition call_method ::
  "string \<Rightarrow> param_method option \<Rightarrow> (string \<rightharpoonup> pyval) \<Rightarrow> obj \<Rightarrow> (error + pyval) \<times> obj" where
  "call_method cls method kwargs s =
     (case method of
        None \<Rightarrow> (Inl TypeError, s)
      | Some m \<Rightarrow> wrapper cls m kwargs s)"

text \<open>
  Lines 132-138, \<open>_get_param_methods\<close>: the decorated methods, in the order of
  \<open>dir(self)\<close>, are stored under their \<open>__param__\<close>. A dictionary keeps a key at the
  position of its first insertion and the value of its last.
\<close>

fun dict_set :: "string \<Rightarrow> 'v \<Rightarrow> (string \<times> 'v) list \<Rightarrow> (string \<times> 'v) list" where
  "dict_set k v [] = [(k, v)]"
| "dict_set k v ((k', v') # al) = (if k = k' then (k, v) # al else (k', v') # dict_set k v al)"

definition get_param_methods :: "param_method list \<Rightarrow> (string \<times> param_method) list" where
  "get_param_methods hs = fold (\<lambda>h methods. dict_set (param h) h methods) hs []"

section \<open>Resolution\<close>

text \<open>
  Lines 140-162, \<open>_process_param\<close>, and its loop over the dependencies (lines 146-160).
  \<open>chain\<close> is one list object shared by the whole recursion: what a recursive call
  appends stays in the list the caller goes on with, so the list is passed in and returned.
  The first argument bounds the depth of the recursion; \<open>None\<close> means the bound was
  reached.
\<close>

text \<open>Lines 141-142: \<open>if chain == None: chain = []\<close>.\<close>

definition chain_list :: "string list option \<Rightarrow> string list" where
  "chain_list chain = (case chain of None \<Rightarrow> [] | Some c \<Rightarrow> c)"

fun process_param ::
  "nat \<Rightarrow> string \<Rightarrow> (string \<times> param_method) list \<Rightarrow> (string \<rightharpoonup> pyval) \<Rightarrow>
   string \<Rightarrow> param_method option \<Rightarrow> string list option \<Rightarrow> obj \<Rightarrow>
   ((error + string list) \<times> obj) option"
and process_deps ::
  "nat \<Rightarrow> string \<Rightarrow> (string \<times> param_method) list \<Rightarrow> (string \<rightharpoonup> pyval) \<Rightarrow>
   string list \<Rightarrow> string list \<Rightarrow> obj \<Rightarrow>
   ((error + string list) \<times> obj) option"
where
  "process_param 0 cls methods kwargs p method chain s = None"
| "process_param (Suc n) cls methods kwargs p method chain s =
     (let chain1 = chain_list chain @ [p];
          deps = (case method of None \<Rightarrow> [] | Some m \<Rightarrow> depends_on m)
      in case process_deps n cls methods kwargs deps chain1 s of
           None \<Rightarrow> None
         | Some (Inl e, s1) \<Rightarrow> Some (Inl e, s1)
         | Some (Inr chain2, s1) \<Rightarrow>
             (case call_method cls method kwargs s1 of
                (Inl e, s2) \<Rightarrow> Some (Inl e, s2)
              | (Inr r, s2) \<Rightarrow>
                  Some (Inr chain2, s2\<lparr>param_vals := (param_vals s2)(p \<mapsto> r)\<rparr>)))"
| "process_deps n cls methods kwargs [] chain s = Some (Inr chain, s)"
| "process_deps n cls methods kwargs (depname # deps) chain s =
     (if depname \<in> set chain then
        (case chain of
           [] \<Rightarrow> Some (Inl IndexError, s)
         | c # _ \<Rightarrow> Some (Inl (CyclicalDependencyError c), s))
      else
        (let dep_method = map_of methods depname in
         case (if param_vals s depname = None
               then process_param n cls methods kwargs depname dep_method (Some chain) s
               else Some (Inr chain, s)) of
           None \<Rightarrow> None
         | Some (Inl e, s1) \<Rightarrow> Some (Inl e, s1)
         | Some (Inr chain1, s1) \<Rightarrow>
             if param_vals s1 depname = None
             then Some (Inl (RequiredParameterError cls depname), s1)
             else process_deps n cls methods kwargs deps chain1 s1))"

text \<open>Lines 129-130: the loop of \<open>__init__\<close> over \<open>self._param_methods.items()\<close>.\<close>

fun init_loop ::
  "nat \<Rightarrow> string \<Rightarrow> (string \<times> param_method) list \<Rightarrow> (string \<rightharpoonup> pyval) \<Rightarrow>
   (string \<times> param_method) list \<Rightarrow> obj \<Rightarrow> ((error + unit) \<times> obj) option" where
  "init_loop n cls methods kwargs [] s = Some (Inr (), s)"
| "init_loop n cls methods kwargs ((p, method) # items) s =
     (case process_param n cls methods kwargs p (Some method) None s of
        None \<Rightarrow> None
      | Some (Inl e, s1) \<Rightarrow> Some (Inl e, s1)
      | Some (Inr chain, s1) \<Rightarrow> init_loop n cls methods kwargs items s1)"

text \<open>
  Lines 126-130, \<open>__init__\<close>, for a class named \<open>cls\<close> whose decorated methods are
  \<open>hs\<close> (in the order of \<open>dir\<close>). A chain holds distinct names, at most one of them
  undeclared, so the recursion is never deeper than the number of declared parameters
  plus one (lemma \<open>init_returns\<close> below).
\<close>

definition init ::
  "string \<Rightarrow> param_method list \<Rightarrow> (string \<rightharpoonup> pyval) \<Rightarrow> ((error + unit) \<times> obj) option" where
  "init cls hs kwargs =
     (let methods = get_param_methods hs
      in init_loop (Suc (length methods)) cls methods kwargs methods new_obj)"




text \<open>
  What a caller can see of a construction: how it ended, the attributes of the given
  names, and the trace of handler invocations.
\<close>

definition observe ::
  "string list \<Rightarrow> ((error + unit) \<times> obj) option \<Rightarrow>
   ((error + unit) \<times> pyval option list \<times> string list) option" where
  "observe names r = map_option (\<lambda>(res, s). (res, map (attrs s) names, calls s)) r"

section \<open>Example classes\<close>

text \<open>
  The decorator call \<open>@parameter(param, depends_on=..., ensure_type=..., default=...)\<close>
  applied to a function \<open>f\<close>.
\<close>

definition parameter ::
  "string \<Rightarrow> string list \<Rightarrow> pytype option \<Rightarrow> pyval option \<Rightarrow>
   ((string \<rightharpoonup> pyval) \<Rightarrow> pyval \<Rightarrow> error + pyval) \<Rightarrow> param_method" where
  "parameter p deps t d f =
     \<lparr>param = p, depends_on = deps, ensure_type = t, default_val = d, handler = f\<rparr>"

text \<open>A handler whose body is \<open>pass\<close>: it returns \<open>None\<close>.\<close>

definition pass_through :: "(string \<rightharpoonup> pyval) \<Rightarrow> pyval \<Rightarrow> error + pyval" where
  "pass_through self val = Inr PNone"

text \<open>
  The handler of the class docstring (lines 103-107), for the parameter the specification
  calls \<open>can_vote\<close>:
  \<^verbatim>\<open>if self.age < 18: value = False\<close>, then \<^verbatim>\<open>return value\<close>.
  Reading \<open>self.age\<close> before it is set raises AttributeError; comparing a string or a
  list with 18 raises TypeError (Python 3); \<open>None\<close> likewise; a bool compares as 0 or 1.
\<close>

definition handle_vote :: "(string \<rightharpoonup> pyval) \<Rightarrow> pyval \<Rightarrow> error + pyval" where
  "handle_vote self val =
     (case self ''age'' of
        None \<Rightarrow> Inl (AttributeError ''age'')
      | Some (PInt a) \<Rightarrow> if a < 18 then Inr (PBool False) else Inr val
      | Some (PBool b) \<Rightarrow> Inr (PBool False)
      | Some _ \<Rightarrow> Inl TypeError)"

text \<open>
  The declarations of the specification's example scenarios: \<open>first_name\<close> (string,
  required), \<open>age\<close> (integer, required), \<open>can_vote\<close> (boolean, depends on \<open>age\<close>),
  with methods named so that \<open>dir\<close> lists them in this order.
\<close>

definition age_method :: param_method where
  "age_method = parameter ''age'' [] (Some TInt) None pass_through"

definition first_name_method :: param_method where
  "first_name_method = parameter ''first_name'' [] (Some TStr) None pass_through"

definition vote_method :: param_method where
  "vote_method = parameter ''can_vote'' [''age''] (Some TBool) None handle_vote"

definition person :: "param_method list" where
  "person = [age_method, first_name_method, vote_method]"

definition kid :: "string \<rightharpoonup> pyval" where
  "kid = [''first_name'' \<mapsto> PStr ''Kid'', ''age'' \<mapsto> PInt 12, ''can_vote'' \<mapsto> PBool True]"

text \<open>
  Parameters with pass-through handlers, no type constraint and no default, for the
  dependency graphs below; and keyword arguments supplying an integer for each of
  \<open>a\<close>, \<open>b\<close>, \<open>c\<close>, \<open>d\<close>.
\<close>

definition plain :: "string \<Rightarrow> string list \<Rightarrow> param_method" where
  "plain p deps = parameter p deps None None pass_through"

definition abcd :: "string \<rightharpoonup> pyval" where
  "abcd = [''a'' \<mapsto> PInt 1, ''b'' \<mapsto> PInt 2, ''c'' \<mapsto> PInt 3, ''d'' \<mapsto> PInt 4]"

text \<open>
  The diamond: \<open>b\<close> and \<open>c\<close> each depend on \<open>a\<close>, and \<open>d\<close> depends on \<open>b\<close> and
  \<open>c\<close>. The three lists are three orders in which \<open>dir\<close> can list the methods.
\<close>

definition diamond_abcd :: "param_method list" where
  "diamond_abcd =
     [plain ''a'' [], plain ''b'' [''a''], plain ''c'' [''a''], plain ''d'' [''b'', ''c'']]"

definition diamond_bcda :: "param_method list" where
  "diamond_bcda =
     [plain ''b'' [''a''], plain ''c'' [''a''], plain ''d'' [''b'', ''c''], plain ''a'' []]"

definition diamond_dbca :: "param_method list" where
  "diamond_dbca =
     [plain ''d'' [''b'', ''c''], plain ''b'' [''a''], plain ''c'' [''a''], plain ''a'' []]"

text \<open>An instance on which only \<open>age = 12\<close> has been set so far.\<close>

definition aged_12 :: obj where
  "aged_12 = new_obj\<lparr>attrs := [''age'' \<mapsto> PInt 12]\<rparr>"


text \<open>A class whose only parameter \<open>b\<close> depends on \<open>a\<close>, which no method declares.\<close>

definition needs_undeclared :: "param_method list" where
  "needs_undeclared = [plain ''b'' [''a'']]"

text \<open>\<open>b\<close> depends on \<open>a\<close>, and the method of \<open>b\<close> comes first in \<open>dir\<close>.\<close>

definition chain_ba :: "param_method list" where
  "chain_ba = [plain ''b'' [''a''], plain ''a'' []]"




text \<open>The keyword arguments \<open>kid\<close> with one more key that no parameter declares.\<close>

definition kid_nick :: "string \<rightharpoonup> pyval" where
  "kid_nick = kid(''nickname'' \<mapsto> PStr ''K'')"














section \<open>The dictionary of parameter methods\<close>

lemma dict_set_keys:
  "(k', v') \<in> set (dict_set k v al) \<Longrightarrow> (k', v') = (k, v) \<or> (k', v') \<in> set al"
  by (induction al) (auto split: if_splits)

lemma get_param_methods_key_aux:
  "\<forall>(k, m) \<in> set al. param m = k \<and> m \<in> H \<Longrightarrow> set hs \<subseteq> H \<Longrightarrow>
   \<forall>(k, m) \<in> set (fold (\<lambda>h methods. dict_set (param h) h methods) hs al). param m = k \<and> m \<in> H"
proof (induction hs arbitrary: al)
  case Nil
  then show ?case by simp
next
  case (Cons h hs)
  have "\<forall>(k, m) \<in> set (dict_set (param h) h al). param m = k \<and> m \<in> H"
    using Cons.prems by (auto dest!: dict_set_keys)
  then show ?case using Cons.IH Cons.prems by simp
qed

lemma get_param_methods_key:
  "(k, m) \<in> set (get_param_methods hs) \<Longrightarrow> param m = k \<and> m \<in> set hs"
  using get_param_methods_key_aux [of "[]" "set hs" hs]
  by (auto simp: get_param_methods_def)








section \<open>Construction always returns\<close>





section \<open>A parameter whose raw value cannot be determined\<close>



section \<open>Keyword arguments are read only at declared names\<close>

lemma input_value_kwargs_cong:
  "kw1 (param m) = kw2 (param m) \<Longrightarrow> input_value cls m kw1 = input_value cls m kw2"
  by (simp only: input_value_def)

lemma wrapper_kwargs_cong:
  "kw1 (param m) = kw2 (param m) \<Longrightarrow> wrapper cls m kw1 s = wrapper cls m kw2 s"
  by (simp only: wrapper_def input_value_kwargs_cong [of kw1 m kw2])

lemma call_method_kwargs_cong:
  assumes "\<And>m. meth = Some m \<Longrightarrow> kw1 (param m) = kw2 (param m)"
  shows "call_method cls meth kw1 s = call_method cls meth kw2 s"
proof (cases meth)
  case None
  show ?thesis unfolding None call_method_def by simp
next
  case (Some m)
  have "wrapper cls m kw1 s = wrapper cls m kw2 s"
    by (rule wrapper_kwargs_cong) (rule assms, rule Some)
  then show ?thesis unfolding Some call_method_def by simp
qed

lemma deps_kwargs_cong:
  assumes A: "\<And>p meth chain s.
      (\<And>m. meth = Some m \<Longrightarrow> kw1 (param m) = kw2 (param m)) \<Longrightarrow>
      process_param n cls methods kw1 p meth chain s
        = process_param n cls methods kw2 p meth chain s"
    and M: "\<And>k m. map_of methods k = Some m \<Longrightarrow> kw1 (param m) = kw2 (param m)"
  shows "process_deps n cls methods kw1 deps chain s
       = process_deps n cls methods kw2 deps chain s"
proof (induction deps arbitrary: chain s)
  case Nil
  show ?case by simp
next
  case (Cons d ds)
  have step: "process_param n cls methods kw1 d (map_of methods d) (Some chain) s
      = process_param n cls methods kw2 d (map_of methods d) (Some chain) s"
    by (rule A) (rule M)
  show ?case
  proof (cases "d \<in> set chain")
    case True
    then show ?thesis by simp
  next
    case notin: False
    show ?thesis
    proof (cases "param_vals s d = None")
      case True
      show ?thesis
      proof (cases "process_param n cls methods kw2 d (map_of methods d) (Some chain) s")
        case None
        then show ?thesis using notin True step by simp
      next
        case (Some res)
        obtain r s1 where res: "res = (r, s1)" by (cases res)
        show ?thesis
        proof (cases r)
          case (Inl e)
          then show ?thesis using notin True step Some res by simp
        next
          case (Inr c1)
          then show ?thesis using notin True step Some res Cons.IH [of c1 s1] by simp
        qed
      qed
    next
      case False
      then obtain v where "param_vals s d = Some v" by auto
      then show ?thesis using notin Cons.IH [of chain s] by simp
    qed
  qed
qed

lemma param_kwargs_cong:
  assumes M: "\<And>k m. map_of methods k = Some m \<Longrightarrow> kw1 (param m) = kw2 (param m)"
  shows "(\<And>m. meth = Some m \<Longrightarrow> kw1 (param m) = kw2 (param m)) \<Longrightarrow>
     process_param n cls methods kw1 p meth chain s
       = process_param n cls methods kw2 p meth chain s"
proof (induction n arbitrary: p meth chain s)
  case 0
  show ?case by simp
next
  case (Suc n)
  have d: "\<And>deps chain s. process_deps n cls methods kw1 deps chain s
       = process_deps n cls methods kw2 deps chain s"
    by (rule deps_kwargs_cong [OF Suc.IH M])
  have c: "\<And>s. call_method cls meth kw1 s = call_method cls meth kw2 s"
    by (rule call_method_kwargs_cong) (rule Suc.prems)
  show ?case
  proof (cases "process_deps n cls methods kw2
      (case meth of None \<Rightarrow> [] | Some m \<Rightarrow> depends_on m) (chain_list chain @ [p]) s")
    case None
    then show ?thesis by (simp add: d Let_def)
  next
    case (Some res)
    obtain r s1 where res: "res = (r, s1)" by (cases res)
    show ?thesis by (cases r) (simp_all add: d c Some res Let_def)
  qed
qed

lemma init_loop_kwargs_cong:
  assumes M: "\<And>k m. map_of methods k = Some m \<Longrightarrow> kw1 (param m) = kw2 (param m)"
  shows "(\<And>p m. (p, m) \<in> set items \<Longrightarrow> kw1 (param m) = kw2 (param m)) \<Longrightarrow>
     init_loop n cls methods kw1 items s = init_loop n cls methods kw2 items s"
proof (induction items arbitrary: s)
  case Nil
  show ?case by simp
next
  case (Cons item items)
  obtain p m where item: "item = (p, m)" by (cases item)
  have pm: "kw1 (param m) = kw2 (param m)"
    by (rule Cons.prems [of p m]) (simp add: item)
  have step: "process_param n cls methods kw1 p (Some m) None s
      = process_param n cls methods kw2 p (Some m) None s"
  proof (rule param_kwargs_cong [where meth = "Some m"])
    fix k m' assume "map_of methods k = Some m'"
    then show "kw1 (param m') = kw2 (param m')" by (rule M)
  next
    fix m' assume "Some m = Some m'"
    then have "m' = m" by simp
    then show "kw1 (param m') = kw2 (param m')" by (simp only: pm)
  qed
  have rest: "\<And>s. init_loop n cls methods kw1 items s = init_loop n cls methods kw2 items s"
  proof (rule Cons.IH)
    fix q mq assume "(q, mq) \<in> set items"
    then have "(q, mq) \<in> set (item # items)" by simp
    then show "kw1 (param mq) = kw2 (param mq)" by (rule Cons.prems)
  qed
  show ?case
  proof (cases "process_param n cls methods kw2 p (Some m) None s")
    case None
    then show ?thesis by (simp add: item step)
  next
    case (Some res)
    obtain r s1 where res: "res = (r, s1)" by (cases res)
    show ?thesis by (cases r) (simp_all add: item step rest Some res)
  qed
qed

section \<open>Attributes are set only at declared names\<close>

lemma call_method_attrs:
  "call_method cls meth kwargs s = (r, s') \<Longrightarrow>
   (\<And>m. meth = Some m \<Longrightarrow> param m \<in> N) \<Longrightarrow> dom (attrs s) \<subseteq> N \<Longrightarrow> dom (attrs s') \<subseteq> N"
  by (cases meth)
     (auto simp: call_method_def wrapper_def Let_def subset_iff dom_def
        split: sum.splits if_splits)

lemma deps_attrs:
  assumes A: "\<And>p meth chain s r s'.
      process_param n cls methods kwargs p meth chain s = Some (r, s') \<Longrightarrow>
      (\<And>m. meth = Some m \<Longrightarrow> param m \<in> N) \<Longrightarrow> dom (attrs s) \<subseteq> N \<Longrightarrow>
      dom (attrs s') \<subseteq> N"
    and M: "\<And>k m. map_of methods k = Some m \<Longrightarrow> param m \<in> N"
  shows "process_deps n cls methods kwargs deps chain s = Some (r, s') \<Longrightarrow>
     dom (attrs s) \<subseteq> N \<Longrightarrow> dom (attrs s') \<subseteq> N"
proof (induction deps arbitrary: chain s)
  case Nil
  then show ?case by simp
next
  case (Cons d ds)
  show ?case
  proof (cases "d \<in> set chain")
    case True
    with Cons.prems show ?thesis by (cases chain) auto
  next
    case notin: False
    show ?thesis
    proof (cases "param_vals s d = None")
      case True
      show ?thesis
      proof (cases "process_param n cls methods kwargs d (map_of methods d) (Some chain) s")
        case None
        with Cons.prems notin True show ?thesis by simp
      next
        case (Some res)
        obtain r1 s1 where res: "res = (r1, s1)" by (cases res)
        have s1: "dom (attrs s1) \<subseteq> N"
          using A [OF Some [unfolded res] M Cons.prems(2)] by simp
        show ?thesis
        proof (cases r1)
          case (Inl e)
          with Cons.prems notin True Some res s1 show ?thesis by auto
        next
          case (Inr c1)
          with Cons.prems notin True Some res s1 Cons.IH [of c1 s1] show ?thesis
            by (auto split: if_splits)
        qed
      qed
    next
      case False
      with Cons.prems notin Cons.IH [of chain s] show ?thesis by auto
    qed
  qed
qed

lemma param_attrs:
  assumes M: "\<And>k m. map_of methods k = Some m \<Longrightarrow> param m \<in> N"
  shows "process_param n cls methods kwargs p meth chain s = Some (r, s') \<Longrightarrow>
     (\<And>m. meth = Some m \<Longrightarrow> param m \<in> N) \<Longrightarrow> dom (attrs s) \<subseteq> N \<Longrightarrow>
     dom (attrs s') \<subseteq> N"
proof (induction n arbitrary: p meth chain s r s')
  case 0
  then show ?case by simp
next
  case (Suc n)
  let ?deps = "case meth of None \<Rightarrow> [] | Some m \<Rightarrow> depends_on m"
  let ?C = "chain_list chain @ [p]"
  from Suc.prems(1) obtain r1 s1 where
    d: "process_deps n cls methods kwargs ?deps ?C s = Some (r1, s1)"
    by (auto split: option.splits)
  have s1: "dom (attrs s1) \<subseteq> N"
    by (rule deps_attrs [OF Suc.IH M d Suc.prems(3)])
  show ?case
  proof (cases r1)
    case (Inl e)
    with Suc.prems(1) d s1 show ?thesis by auto
  next
    case (Inr c2)
    obtain r2 s2 where c: "call_method cls meth kwargs s1 = (r2, s2)"
      by (cases "call_method cls meth kwargs s1")
    have "dom (attrs s2) \<subseteq> N"
      by (rule call_method_attrs [OF c Suc.prems(2) s1])
    with Suc.prems(1) d Inr c show ?thesis by (auto split: sum.splits)
  qed
qed

lemma init_loop_attrs:
  assumes M: "\<And>k m. map_of methods k = Some m \<Longrightarrow> param m \<in> N"
  shows "init_loop n cls methods kwargs items s = Some (r, s') \<Longrightarrow>
     (\<And>p m. (p, m) \<in> set items \<Longrightarrow> param m \<in> N) \<Longrightarrow> dom (attrs s) \<subseteq> N \<Longrightarrow>
     dom (attrs s') \<subseteq> N"
proof (induction items arbitrary: s)
  case Nil
  then show ?case by simp
next
  case (Cons item items)
  obtain p m where item: "item = (p, m)" by (cases item)
  from Cons.prems(1) obtain r1 s1 where
    pp: "process_param n cls methods kwargs p (Some m) None s = Some (r1, s1)"
    by (auto simp: item split: option.splits)
  have "param m \<in> N" using Cons.prems(2) [of p m] item by simp
  then have s1: "dom (attrs s1) \<subseteq> N"
    using param_attrs [OF M pp _ Cons.prems(3)] by simp
  show ?case
  proof (cases r1)
    case (Inl e)
    with Cons.prems(1) pp s1 item show ?thesis by auto
  next
    case (Inr c)
    have "init_loop n cls methods kwargs items s1 = Some (r, s')"
      using Cons.prems(1) pp Inr item by simp
    then show ?thesis using Cons.prems(2) s1 by (intro Cons.IH [of s1]) auto
  qed
qed

section \<open>A mutual dependency is never resolved\<close>






section \<open>Reaching the step of a parameter\<close>






section \<open>Where an exception comes from\<close>












section \<open>The start of the chain\<close>





section \<open>The handler wrapper\<close>

text \<open>
  C3. Whenever the wrapper gets as far as the handler (the raw value \<open>val\<close> is the supplied
  argument or, failing that, the default) and the handler returns \<open>retval\<close>, the attribute
  is set to \<open>retval\<close> when \<open>retval\<close> is truthy and to the raw value \<open>val\<close> when it is
  falsy: \<open>None\<close>, \<open>False\<close>, \<open>0\<close>, the empty string and the empty list alike.
\<close>

theorem wrapper_stores_retval_or_val:
  assumes "input_value cls m kwargs = Inr val"
      and "handler m (attrs s) val = Inr retval"
  shows "(kwargs (param m) = Some val \<or> (kwargs (param m) = None \<and> default_val m = Some val))
       \<and> wrapper cls m kwargs s =
           (Inr PNone,
            s\<lparr>calls := calls s @ [param m],
              attrs := (attrs s)(param m \<mapsto> (if truthy retval then retval else val))\<rparr>)"
  using assms
  by (auto simp: wrapper_def input_value_def py_or_def Let_def split: option.splits if_splits)

theorem wrapper_stores_retval_or_val_witness:
  "input_value ''Person'' vote_method kid = Inr (PBool True)
   \<and> handler vote_method (attrs aged_12) (PBool True) = Inr (PBool False)
   \<and> wrapper ''Person'' vote_method kid aged_12 =
       (Inr PNone,
        aged_12\<lparr>calls := [''can_vote''],
                attrs := [''age'' \<mapsto> PInt 12, ''can_vote'' \<mapsto> PBool True]\<rparr>)"
proof -
  have h1: "input_value ''Person'' vote_method kid = Inr (PBool True)"
    by (simp add: input_value_def vote_method_def parameter_def kid_def)
  have h2: "handler vote_method (attrs aged_12) (PBool True) = Inr (PBool False)"
    by (simp add: vote_method_def parameter_def aged_12_def new_obj_def handle_vote_def)
  show ?thesis
    using h1 h2 wrapper_stores_retval_or_val [OF h1 h2]
    by (simp add: vote_method_def parameter_def aged_12_def new_obj_def)
qed

section \<open>Constructions evaluated\<close>

text \<open>
  C1. The diamond with every value supplied. When \<open>dir\<close> lists the methods in dependency
  order each handler runs once. When the method of \<open>a\<close> comes last, the construction
  succeeds and the handler of \<open>a\<close> runs twice: once as the dependency of \<open>b\<close>, and again
  when the loop of \<open>__init__\<close> reaches \<open>a\<close>, since that loop does not look into
  \<open>_param_vals\<close>. When the method of \<open>d\<close> comes first, the construction fails with
  CyclicalDependencyError: \<open>a\<close>, resolved for \<open>b\<close>, is still in the chain when \<open>c\<close>
  asks for it.
\<close>

theorem diamond_transform_invocations:
  "observe [] (init ''Diamond'' diamond_abcd abcd)
     = Some (Inr (), [], [''a'', ''b'', ''c'', ''d''])
   \<and> observe [] (init ''Diamond'' diamond_bcda abcd)
     = Some (Inr (), [], [''a'', ''b'', ''c'', ''d'', ''a''])
   \<and> observe [] (init ''Diamond'' diamond_dbca abcd)
     = Some (Inl (CyclicalDependencyError ''d''), [], [''a'', ''b''])"
  by code_simp

text \<open>
  C2. The specification's second scenario: the construction succeeds, the handler of
  \<open>can_vote\<close> returns \<open>False\<close>, and \<open>False or True\<close> stores \<open>True\<close>.
\<close>

theorem kid_can_vote_stays_true:
  "observe [''first_name'', ''age'', ''can_vote''] (init ''Person'' person kid)
     = Some (Inr (), [Some (PStr ''Kid''), Some (PInt 12), Some (PBool True)],
             [''age'', ''first_name'', ''can_vote''])
   \<and> handle_vote [''age'' \<mapsto> PInt 12] (PBool True) = Inr (PBool False)"
  by code_simp

text \<open>
  C4. A dependency that no method declares: \<open>_process_param\<close> is entered with
  \<open>method = None\<close> and calls it (line 162), which raises TypeError before the check of
  line 157 is reached, whether or not a value for the name was supplied.
\<close>

theorem undeclared_dependency_type_error:
  "observe [] (init ''K'' needs_undeclared abcd) = Some (Inl TypeError, [], [])
   \<and> observe [] (init ''K'' needs_undeclared [''b'' \<mapsto> PInt 2]) = Some (Inl TypeError, [], [])"
  by code_simp

text \<open>
  C5. \<open>b\<close> depends on \<open>a\<close> and is reached first: resolving \<open>b\<close> resolves \<open>a\<close>, and
  the loop of \<open>__init__\<close> then resolves \<open>a\<close> a second time although \<open>_param_vals\<close>
  already has it.
\<close>

theorem toplevel_loop_recomputes:
  "map_option (\<lambda>(r, s). (r, param_vals s ''a'', calls s))
     (process_param 3 ''K'' (get_param_methods chain_ba) abcd ''b''
        (Some (plain ''b'' [''a''])) None new_obj)
     = Some (Inr [''b'', ''a''], Some PNone, [''a'', ''b''])
   \<and> observe [''a'', ''b''] (init ''K'' chain_ba abcd)
     = Some (Inr (), [Some (PInt 1), Some (PInt 2)], [''a'', ''b'', ''a''])"
  by code_simp

section \<open>Failures of a whole construction\<close>










section \<open>Defaults\<close>




section \<open>Undeclared keyword arguments\<close>

text \<open>
  C10. Two keyword-argument dictionaries that agree on every declared parameter name give
  the same construction: the same outcome and the same object (attributes,
  \<open>_param_vals\<close> and trace of handler calls). However a construction ends, the object
  has attributes only at declared parameter names.
\<close>

theorem unknown_keys_ignored:
  assumes "\<forall>k \<in> param ` set hs. kw1 k = kw2 k"
  shows "init cls hs kw1 = init cls hs kw2
       \<and> (\<forall>r s. init cls hs kw1 = Some (r, s) \<longrightarrow> dom (attrs s) \<subseteq> param ` set hs)"
proof (intro conjI allI impI)
  let ?ms = "get_param_methods hs"
  have same: "\<And>m. m \<in> set hs \<Longrightarrow> kw1 (param m) = kw2 (param m)"
    using assms by blast
  have mem: "\<And>k m. (k, m) \<in> set ?ms \<Longrightarrow> m \<in> set hs"
    by (simp add: get_param_methods_key)
  have look: "\<And>k m. map_of ?ms k = Some m \<Longrightarrow> m \<in> set hs"
    by (rule mem) (rule map_of_SomeD)
  have "init_loop (Suc (length ?ms)) cls ?ms kw1 ?ms new_obj
      = init_loop (Suc (length ?ms)) cls ?ms kw2 ?ms new_obj"
  proof (rule init_loop_kwargs_cong)
    fix k m assume "map_of ?ms k = Some m"
    then show "kw1 (param m) = kw2 (param m)" by (intro same look)
  next
    fix p m assume "(p, m) \<in> set ?ms"
    then show "kw1 (param m) = kw2 (param m)" by (intro same mem)
  qed
  then show "init cls hs kw1 = init cls hs kw2"
    by (simp only: init_def Let_def)
next
  fix r s
  let ?ms = "get_param_methods hs"
  assume "init cls hs kw1 = Some (r, s)"
  then have run: "init_loop (Suc (length ?ms)) cls ?ms kw1 ?ms new_obj = Some (r, s)"
    by (simp add: init_def Let_def)
  have mem: "\<And>k m. (k, m) \<in> set ?ms \<Longrightarrow> param m \<in> param ` set hs"
    by (blast dest: get_param_methods_key)
  have look: "\<And>k m. map_of ?ms k = Some m \<Longrightarrow> param m \<in> param ` set hs"
    by (rule mem) (rule map_of_SomeD)
  have start: "dom (attrs new_obj) \<subseteq> param ` set hs"
    by (simp add: new_obj_def)
  show "dom (attrs s) \<subseteq> param ` set hs"
    by (rule init_loop_attrs [OF look run mem start])
qed

theorem unknown_keys_ignored_witness:
  "init ''Person'' person kid = init ''Person'' person kid_nick
   \<and> observe [''nickname''] (init ''Person'' person kid_nick)
     = Some (Inr (), [None], [''age'', ''first_name'', ''can_vote''])"
proof -
  have h: "\<forall>k \<in> param ` set person. kid k = kid_nick k"
    by (simp add: person_def age_method_def first_name_method_def vote_method_def
        parameter_def kid_nick_def)
  have o: "observe [''nickname''] (init ''Person'' person kid_nick)
     = Some (Inr (), [None], [''age'', ''first_name'', ''can_vote''])"
    by code_simp
  from unknown_keys_ignored [OF h, of "''Person''"] o show ?thesis by blast
qed

end
